theory Spec2Isabelle
  imports Main "HOL-Library.Sublist"
begin

section \<open>Python strings\<close>

text \<open>
  A Python \<open>str\<close> is a sequence of Unicode code points, so a string is a list of code
  point numbers. The sources contain code points beyond one byte (the zero width
  non-joiner U+200C in the Java-Edition marker, the en dash U+2013), which is why
  \<open>char list\<close> is not used. \<open>str\<close> embeds an ASCII literal.
\<close>

type_synonym pystr = "nat list"

definition str :: "string \<Rightarrow> pystr" where
  "str s = map of_char s"

text \<open>
  The classification of code points beyond ASCII (\<open>\d\<close> of module \<open>re\<close>,
  \<open>str.isdigit\<close>, \<open>str.isalpha\<close>) comes from the Unicode database of the Python
  runtime, which is not part of the repository: it is a parameter. On ASCII the three
  predicates are written out.
\<close>

record unicode_db =
  uni_decimal :: "nat \<Rightarrow> bool"
  uni_digit :: "nat \<Rightarrow> bool"
  uni_alpha :: "nat \<Rightarrow> bool"

definition ascii_only :: unicode_db where
  "ascii_only = \<lparr> uni_decimal = (\<lambda>c. False), uni_digit = (\<lambda>c. False), uni_alpha = (\<lambda>c. False) \<rparr>"

definition re_digit :: "unicode_db \<Rightarrow> nat \<Rightarrow> bool" where
  "re_digit U c = ((48 \<le> c \<and> c \<le> 57) \<or> (128 \<le> c \<and> uni_decimal U c))"

definition char_isdigit :: "unicode_db \<Rightarrow> nat \<Rightarrow> bool" where
  "char_isdigit U c = ((48 \<le> c \<and> c \<le> 57) \<or> (128 \<le> c \<and> uni_digit U c))"

definition char_isalpha :: "unicode_db \<Rightarrow> nat \<Rightarrow> bool" where
  "char_isalpha U c = ((65 \<le> c \<and> c \<le> 90) \<or> (97 \<le> c \<and> c \<le> 122) \<or> (128 \<le> c \<and> uni_alpha U c))"

text \<open>\<open>s.isdigit()\<close> and \<open>s.isalpha()\<close>: false on the empty string.\<close>

definition isdigit :: "unicode_db \<Rightarrow> pystr \<Rightarrow> bool" where
  "isdigit U s = (s \<noteq> [] \<and> list_all (char_isdigit U) s)"

definition isalpha :: "unicode_db \<Rightarrow> pystr \<Rightarrow> bool" where
  "isalpha U s = (s \<noteq> [] \<and> list_all (char_isalpha U) s)"

text \<open>\<open>s.startswith(p)\<close> and \<open>sub in s\<close>.\<close>

definition startswith :: "pystr \<Rightarrow> pystr \<Rightarrow> bool" where
  "startswith s p = (take (length p) s = p)"

fun contains :: "pystr \<Rightarrow> pystr \<Rightarrow> bool" where
  "contains sub [] = (sub = [])"
| "contains sub (c # cs) = (startswith (c # cs) sub \<or> contains sub cs)"

subsection \<open>Replacing the matches of a pattern\<close>

text \<open>
  \<open>str.replace\<close> and \<open>re.sub\<close> both scan the string from the left; where the pattern
  matches at the current position the replacement is emitted and the scan continues
  after the match, otherwise the current character is copied. A matcher returns the
  length of the match at the head of its argument. The patterns of the sources never
  match the empty string.
\<close>

fun scan_sub :: "(pystr \<Rightarrow> nat option) \<Rightarrow> pystr \<Rightarrow> pystr \<Rightarrow> pystr" where
  "scan_sub m new [] = []"
| "scan_sub m new (c # cs) =
     (case m (c # cs) of
        Some n \<Rightarrow> new @ scan_sub m new (drop (n - 1) cs)
      | None \<Rightarrow> c # scan_sub m new cs)"

text \<open>The matcher of a literal, non-empty pattern.\<close>

definition match_literal :: "pystr \<Rightarrow> pystr \<Rightarrow> nat option" where
  "match_literal old s = (if old \<noteq> [] \<and> startswith s old then Some (length old) else None)"

text \<open>
  \<open>s.replace(old, new)\<close>. For an empty \<open>old\<close> Python puts \<open>new\<close> before every
  character and at the end.
\<close>

definition replace :: "pystr \<Rightarrow> pystr \<Rightarrow> pystr \<Rightarrow> pystr" where
  "replace s old new =
     (if old = [] then new @ concat (map (\<lambda>c. c # new) s)
      else scan_sub (match_literal old) new s)"

text \<open>
  The matcher of the regular expression \<open>%\d+\$s\<close>: a percent sign, the longest run of
  digits (at least one), a dollar sign and \<open>s\<close>. The dollar sign is no digit, so giving
  digits back never turns a failed match into a match.
\<close>

definition match_indexed :: "unicode_db \<Rightarrow> pystr \<Rightarrow> nat option" where
  "match_indexed U s =
     (case s of
        [] \<Rightarrow> None
      | c # t \<Rightarrow>
          (let ds = takeWhile (re_digit U) t; r = dropWhile (re_digit U) t
           in if c = 37 \<and> ds \<noteq> [] \<and> take 2 r = [36, 115]
              then Some (length ds + 3) else None))"

definition re_sub_indexed :: "unicode_db \<Rightarrow> pystr \<Rightarrow> pystr \<Rightarrow> pystr" where
  "re_sub_indexed U new s = scan_sub (match_indexed U) new s"

section \<open>The placeholder rewrite of \<open>process_sleep_messages\<close>\<close>

text \<open>
  Lines 145 to 160 of \<open>core/languages.py\<close>:
  \<^verbatim>\<open>
  processed_msg = sleep_msg
  if "%s/%s" in processed_msg:
      processed_msg = processed_msg.replace("%s/%s", "???")
  processed_msg = re.sub(r'%\d+\$s', '??', processed_msg)
  processed_msg = processed_msg.replace("%s", "??")
  processed_msg = processed_msg.replace("%d", "??")
  \<close>
\<close>

definition rewrite :: "unicode_db \<Rightarrow> pystr \<Rightarrow> pystr" where
  "rewrite U sleep_msg =
     (let processed_msg = sleep_msg;
          processed_msg = (if contains (str ''%s/%s'') processed_msg
                           then replace processed_msg (str ''%s/%s'') (str ''???'')
                           else processed_msg);
          processed_msg = re_sub_indexed U (str ''??'') processed_msg;
          processed_msg = replace processed_msg (str ''%s'') (str ''??'');
          processed_msg = replace processed_msg (str ''%d'') (str ''??'')
      in processed_msg)"

text \<open>
  \<open>s.count(sub)\<close>, the number of non-overlapping occurrences, and \<open>s.split(sep)\<close>.
  Python counts \<open>len(s) + 1\<close> occurrences of the empty string; \<open>split\<close> is only
  called with the non-empty literals \<open>'_'\<close> and the Java-Edition marker (an empty
  separator raises in Python).
\<close>

fun count_scan :: "pystr \<Rightarrow> pystr \<Rightarrow> nat" where
  "count_scan [] sub = 0"
| "count_scan (c # cs) sub =
     (if sub \<noteq> [] \<and> startswith (c # cs) sub
      then 1 + count_scan (drop (length sub - 1) cs) sub
      else count_scan cs sub)"

definition str_count :: "pystr \<Rightarrow> pystr \<Rightarrow> nat" where
  "str_count s sub = (if sub = [] then length s + 1 else count_scan s sub)"

fun str_split :: "pystr \<Rightarrow> pystr \<Rightarrow> pystr list" where
  "str_split [] sep = [[]]"
| "str_split (c # cs) sep =
     (if sep \<noteq> [] \<and> startswith (c # cs) sep
      then [] # str_split (drop (length sep - 1) cs) sep
      else (case str_split cs sep of
              p # ps \<Rightarrow> (c # p) # ps
            | [] \<Rightarrow> [[c]]))"

section \<open>The language code extractor: \<open>get_language_codes\<close>\<close>

text \<open>
  The page is what \<open>requests\<close> and \<open>BeautifulSoup\<close> deliver: either the request fails,
  or the page is parsed and the table with \<open>data-description = "Current language list"\<close>
  is absent or present. A table is the list of its rows, a row the list of the texts
  of its \<open>td\<close> cells as \<open>get_text(strip=True)\<close> returns them.
\<close>

datatype page = Unreachable | Page "pystr list list option"

datatype error =
    FetchError | ParseError | CacheError
  | FileNotFoundError | FileExistsError | JSONDecodeError | UnicodeEncodeError
  | AttributeError | TypeError | KeyError
  | ClientError | HTTPStatusError | OSError

text \<open>The en dash U+2013 and the marker: U+200C followed by \<open>[JEonly]\<close>.\<close>

definition en_dash :: pystr where
  "en_dash = [8211]"

definition JEonly :: pystr where
  "JEonly = 8204 # str ''[JEonly]''"

text \<open>
  The body of the loop over the rows (lines 33 to 57): the code the row appends to
  \<open>language_codes\<close>, if any. \<open>cells[0]\<close> and \<open>cells[4]\<close> are read only when the
  row has six cells or more, and \<open>split\<close> never returns an empty list.
\<close>

definition row_code :: "unicode_db \<Rightarrow> pystr list \<Rightarrow> pystr option" where
  "row_code U cells =
     (if length cells < 6 then None
      else let first_cell = cells ! 0 in
        if \<not> isdigit U first_cell then None
        else if length cells > 4 then
          (let language_code = cells ! 4 in
             if language_code \<noteq> [] \<and> language_code \<noteq> en_dash then
               if contains JEonly language_code then
                 (let je_code = hd (str_split language_code JEonly) in
                    if je_code \<noteq> [] \<and> str_count je_code (str ''_'') = 1
                         \<and> length (str_split je_code (str ''_'')) = 2
                    then Some je_code else None)
               else if str_count language_code (str ''_'') = 0
                         \<and> isalpha U language_code
                         \<and> length language_code \<ge> 2
               then Some language_code
               else if str_count language_code (str ''_'') = 1
                         \<and> length (str_split language_code (str ''_'')) = 2
                         \<and> list_all (\<lambda>part. isalpha U part \<and> length part \<ge> 2)
                              (str_split language_code (str ''_''))
               then Some language_code
               else None
             else None)
        else None)"

text \<open>
  A failed request is re-raised as "Failed to fetch the page", the missing table (a
  \<open>ValueError\<close>) as "Error parsing the page".
\<close>

definition get_language_codes :: "unicode_db \<Rightarrow> page \<Rightarrow> error + pystr list" where
  "get_language_codes U pg =
     (case pg of
        Unreachable \<Rightarrow> Inl FetchError
      | Page None \<Rightarrow> Inl ParseError
      | Page (Some rows) \<Rightarrow>
          Inr (foldl (\<lambda>language_codes row.
                 case row_code U row of
                   Some code \<Rightarrow> language_codes @ [code]
                 | None \<Rightarrow> language_codes) [] rows))"

text \<open>
  The shape of a language identifier as the specification words it: alphabetic with
  two characters or more, or two such parts joined by one underscore.
\<close>

definition valid_identifier :: "unicode_db \<Rightarrow> pystr \<Rightarrow> bool" where
  "valid_identifier U c =
     ((isalpha U c \<and> 2 \<le> length c) \<or>
      (\<exists>a b. c = a @ str ''_'' @ b \<and> isalpha U a \<and> 2 \<le> length a \<and> isalpha U b \<and> 2 \<le> length b))"

section \<open>JSON documents and files\<close>

text \<open>
  A JSON value as \<open>json.load\<close> returns it: a string, a list, a dict (an association
  list, looked up from the left) or anything else (numbers, booleans, \<open>null\<close>). A file
  or a response body is abstracted to what parsing it gives: a JSON value, or a
  failure. \<open>json.dump\<close> followed by \<open>json.load\<close> is the identity in this model; the
  layout of the text is not modelled. The file system maps a path to the content of
  the regular file there; directories are not tracked.
\<close>

datatype json = JString pystr | JArray "json list" | JObject "(pystr \<times> json) list" | JOther

datatype content = Json json | Malformed

type_synonym fs = "pystr \<Rightarrow> content option"

text \<open>
  \<open>dir / name\<close> of \<open>pathlib\<close>: an absolute name replaces the directory. Normalisation
  of the path (doubled or trailing slashes) is not modelled.
\<close>

definition joinpath :: "pystr \<Rightarrow> pystr \<Rightarrow> pystr" where
  "joinpath dir name = (if startswith name (str ''/'') then name else dir @ str ''/'' @ name)"

definition json_file :: "pystr \<Rightarrow> pystr" where
  "json_file lang_code = lang_code @ str ''.json''"

definition path_exists :: "fs \<Rightarrow> pystr \<Rightarrow> bool" where
  "path_exists files p = (files p \<noteq> None)"

text \<open>
  What the operating system does when a file is opened for writing and written: the
  write succeeds, opening fails (the directory is missing, the path is a directory,
  no permission) and nothing changes, or writing fails after the file was opened and
  so truncated. For the message processor these outcomes, and the failures of
  \<open>mkdir\<close> that the files alone do not decide (a parent that is a regular file, no
  permission), are given by the environment, path by path.
\<close>

datatype disk = WriteOk | OpenFails | WriteFails

record disk_env =
  mkdir_fails :: "pystr \<Rightarrow> bool"
  write_result :: "pystr \<Rightarrow> disk"

definition disk_ok :: disk_env where
  "disk_ok = \<lparr> mkdir_fails = (\<lambda>p. False), write_result = (\<lambda>p. WriteOk) \<rparr>"

text \<open>
  \<open>p.mkdir(parents=True, exist_ok=True)\<close>: an existing directory is accepted, a regular
  file at the path raises \<open>FileExistsError\<close>. Creating a directory changes no file.
\<close>

definition mkdir :: "disk_env \<Rightarrow> pystr \<Rightarrow> fs \<Rightarrow> (error + unit) \<times> fs" where
  "mkdir E p files =
     (if path_exists files p then (Inl FileExistsError, files)
      else if mkdir_fails E p then (Inl OSError, files)
      else (Inr (), files))"

text \<open>
  A string can be written to a file opened with \<open>encoding='utf-8'\<close> unless it holds a
  surrogate code point (U+D800 to U+DFFF), which a JSON escape such as \<open>\ud800\<close> puts
  into a loaded string. With \<open>ensure_ascii=False\<close> the strings of a document are
  written as they are.
\<close>

definition str_encodable :: "pystr \<Rightarrow> bool" where
  "str_encodable s = list_all (\<lambda>c. c < 55296 \<or> 57343 < c) s"

primrec encodable :: "json \<Rightarrow> bool" where
  "encodable (JString s) = str_encodable s"
| "encodable (JArray vs) = list_all (\<lambda>b. b) (map encodable vs)"
| "encodable (JObject kvs) =
     list_all (\<lambda>kb. str_encodable (fst kb) \<and> snd kb) (map (map_prod id encodable) kvs)"
| "encodable JOther = True"

text \<open>
  \<open>with open(p, 'r') as f: json.load(f)\<close> and
  \<open>with open(p, 'w', encoding='utf-8') as f: json.dump(d, f, ensure_ascii=False, indent=2)\<close>
  as steps on the file system. \<open>open(p, 'w')\<close> truncates the file; when the dump
  raises after that (a string that cannot be encoded, a failing disk) the file is left
  with the beginning of the text, which is no JSON document.
\<close>

definition read_json :: "pystr \<Rightarrow> fs \<Rightarrow> (error + json) \<times> fs" where
  "read_json p files =
     (case files p of
        None \<Rightarrow> (Inl FileNotFoundError, files)
      | Some Malformed \<Rightarrow> (Inl JSONDecodeError, files)
      | Some (Json d) \<Rightarrow> (Inr d, files))"

definition write_json :: "disk_env \<Rightarrow> pystr \<Rightarrow> json \<Rightarrow> fs \<Rightarrow> (error + unit) \<times> fs" where
  "write_json E p d files =
     (case write_result E p of
        OpenFails \<Rightarrow> (Inl OSError, files)
      | WriteFails \<Rightarrow> (Inl OSError, files(p \<mapsto> Malformed))
      | WriteOk \<Rightarrow>
          if encodable d then (Inr (), files(p \<mapsto> Json d))
          else (Inl UnicodeEncodeError, files(p \<mapsto> Malformed)))"

text \<open>\<open>d.get(k, dflt)\<close>; only a dict has \<open>get\<close>.\<close>

definition dict_get :: "json \<Rightarrow> pystr \<Rightarrow> json \<Rightarrow> error + json" where
  "dict_get d k dflt =
     (case d of
        JObject kvs \<Rightarrow> Inr (case map_of kvs k of Some v \<Rightarrow> v | None \<Rightarrow> dflt)
      | _ \<Rightarrow> Inl AttributeError)"

text \<open>
  \<open>x in v\<close> for a string \<open>x\<close>: substring test on a string, membership in a list, key
  membership in a dict, \<open>TypeError\<close> otherwise.
\<close>

definition py_in :: "pystr \<Rightarrow> json \<Rightarrow> error + bool" where
  "py_in x v =
     (case v of
        JString s \<Rightarrow> Inr (contains x s)
      | JArray vs \<Rightarrow> Inr (JString x \<in> set vs)
      | JObject kvs \<Rightarrow> Inr (x \<in> set (map fst kvs))
      | JOther \<Rightarrow> Inl TypeError)"

section \<open>The message processor: \<open>process_sleep_messages\<close>\<close>

definition sleep_key :: pystr where
  "sleep_key = str ''sleep.players_sleeping''"

definition cache_dir :: pystr where
  "cache_dir = str ''.cache/languages''"

definition fallback_file :: pystr where
  "fallback_file = joinpath cache_dir (str ''en_gb.json'')"

text \<open>
  The four passes on a value read from a translation document. A value that is no
  string stops the run: \<open>in\<close> raises on a number, a boolean or \<open>null\<close>; on a list or
  a dict \<open>in\<close> is a membership test, after which either \<open>replace\<close> is missing or
  \<open>re.sub\<close> rejects the argument.
\<close>

definition rewrite_value :: "unicode_db \<Rightarrow> json \<Rightarrow> error + pystr" where
  "rewrite_value U sleep_msg =
     (case sleep_msg of
        JString s \<Rightarrow> Inr (rewrite U s)
      | _ \<Rightarrow>
          (case py_in (str ''%s/%s'') sleep_msg of
             Inl e \<Rightarrow> Inl e
           | Inr True \<Rightarrow> Inl AttributeError
           | Inr False \<Rightarrow> Inl TypeError))"

definition output_data :: "pystr \<Rightarrow> json" where
  "output_data processed_msg = JObject [(sleep_key, JString processed_msg)]"

text \<open>
  The body of the loop over the language codes (lines 133 to 169). An exception leaves
  the loop; when it is raised by the write, the output file has been touched before.
\<close>

definition process_code ::
  "unicode_db \<Rightarrow> disk_env \<Rightarrow> pystr \<Rightarrow> json \<Rightarrow> pystr \<Rightarrow> fs \<Rightarrow> (error + unit) \<times> fs" where
  "process_code U E output_dir fallback_sleep_msg lang_code files =
     (let lang_file = joinpath cache_dir (json_file lang_code);
          loaded =
            (if path_exists files lang_file then
               (case read_json lang_file files of
                  (Inl e, _) \<Rightarrow> Inl e
                | (Inr lang_data, _) \<Rightarrow> dict_get lang_data sleep_key fallback_sleep_msg)
             else Inr fallback_sleep_msg)
      in case loaded of
           Inl e \<Rightarrow> (Inl e, files)
         | Inr sleep_msg \<Rightarrow>
             (case rewrite_value U sleep_msg of
                Inl e \<Rightarrow> (Inl e, files)
              | Inr processed_msg \<Rightarrow>
                  (let output_file = joinpath output_dir (json_file lang_code)
                   in write_json E output_file (output_data processed_msg) files)))"

text \<open>
  The loop stops at the first exception; the files written before it stay written, so
  the file system is returned in both cases.
\<close>

fun process_codes ::
  "unicode_db \<Rightarrow> disk_env \<Rightarrow> pystr \<Rightarrow> json \<Rightarrow> pystr list \<Rightarrow> fs \<Rightarrow> error option \<times> fs" where
  "process_codes U E output_dir fallback_sleep_msg [] files = (None, files)"
| "process_codes U E output_dir fallback_sleep_msg (lang_code # rest) files =
     (case process_code U E output_dir fallback_sleep_msg lang_code files of
        (Inl e, files') \<Rightarrow> (Some e, files')
      | (Inr u, files') \<Rightarrow> process_codes U E output_dir fallback_sleep_msg rest files')"

text \<open>
  The test of the verification pass (line 183):
  \<^verbatim>\<open>"%" in sleep_msg and ("s" in sleep_msg or "d" in sleep_msg)\<close>
\<close>

definition has_placeholder :: "json \<Rightarrow> error + bool" where
  "has_placeholder sleep_msg =
     (case py_in (str ''%'') sleep_msg of
        Inl e \<Rightarrow> Inl e
      | Inr False \<Rightarrow> Inr False
      | Inr True \<Rightarrow>
          (case py_in (str ''s'') sleep_msg of
             Inl e \<Rightarrow> Inl e
           | Inr True \<Rightarrow> Inr True
           | Inr False \<Rightarrow> py_in (str ''d'') sleep_msg))"

text \<open>
  The verification pass (lines 174 to 184): the loop that collects \<open>unmodified_files\<close>,
  threading the file system through every file operation.
\<close>

fun check_unmodified ::
  "pystr \<Rightarrow> pystr list \<Rightarrow> (pystr \<times> json) list \<Rightarrow> fs \<Rightarrow> (error + (pystr \<times> json) list) \<times> fs" where
  "check_unmodified output_dir [] unmodified_files files = (Inr unmodified_files, files)"
| "check_unmodified output_dir (lang_code # rest) unmodified_files files =
     (let output_file = joinpath output_dir (json_file lang_code) in
        if path_exists files output_file then
          (case read_json output_file files of
             (Inl e, files1) \<Rightarrow> (Inl e, files1)
           | (Inr data, files1) \<Rightarrow>
               (case dict_get data sleep_key (JString []) of
                  Inl e \<Rightarrow> (Inl e, files1)
                | Inr sleep_msg \<Rightarrow>
                    (case has_placeholder sleep_msg of
                       Inl e \<Rightarrow> (Inl e, files1)
                     | Inr flagged \<Rightarrow>
                         check_unmodified output_dir rest
                           (if flagged then unmodified_files @ [(lang_code, sleep_msg)]
                            else unmodified_files) files1)))
        else check_unmodified output_dir rest unmodified_files files)"

text \<open>
  The whole step (lines 111 to 191). Its result is the list of flagged files that the
  last lines print (an empty list prints the success line).
\<close>

definition process_sleep_messages ::
  "unicode_db \<Rightarrow> disk_env \<Rightarrow> page \<Rightarrow> pystr \<Rightarrow> fs \<Rightarrow> (error + (pystr \<times> json) list) \<times> fs" where
  "process_sleep_messages U E pg output_path files =
     (case get_language_codes U pg of
        Inl e \<Rightarrow> (Inl e, files)
      | Inr language_codes \<Rightarrow>
          (let output_dir = output_path in
             case mkdir E output_dir files of
               (Inl e, files0) \<Rightarrow> (Inl e, files0)
             | (Inr u, files0) \<Rightarrow>
                 if \<not> path_exists files0 fallback_file then (Inl CacheError, files0)
                 else
                   (case read_json fallback_file files0 of
                      (Inl e, files1) \<Rightarrow> (Inl e, files1)
                    | (Inr fallback_data, files1) \<Rightarrow>
                        (case dict_get fallback_data sleep_key
                                (JString (str ''%s/%s players sleeping'')) of
                           Inl e \<Rightarrow> (Inl e, files1)
                         | Inr fallback_sleep_msg \<Rightarrow>
                             (case process_codes U E output_dir fallback_sleep_msg
                                     language_codes files1 of
                                (Some e, files2) \<Rightarrow> (Inl e, files2)
                              | (None, files2) \<Rightarrow>
                                  check_unmodified output_dir language_codes [] files2)))))"

text \<open>
  What the specification says the verification pass looks for: a percent sign with an
  \<open>s\<close> or a \<open>d\<close> somewhere after it.
\<close>

fun percent_then_s_or_d :: "pystr \<Rightarrow> bool" where
  "percent_then_s_or_d [] = False"
| "percent_then_s_or_d (c # cs) =
     ((c = 37 \<and> (115 \<in> set cs \<or> 100 \<in> set cs)) \<or> percent_then_s_or_d cs)"

text \<open>The indexed placeholders \<open>%1$s\<close>, \<open>%2$s\<close>, ... and a message without any placeholder.\<close>

definition indexed_placeholder :: "unicode_db \<Rightarrow> pystr \<Rightarrow> bool" where
  "indexed_placeholder U w =
     (\<exists>ds. ds \<noteq> [] \<and> list_all (re_digit U) ds \<and> w = str ''%'' @ ds @ str ''$s'')"

definition no_placeholder :: "unicode_db \<Rightarrow> pystr \<Rightarrow> bool" where
  "no_placeholder U s =
     (\<not> sublist (str ''%s'') s \<and> \<not> sublist (str ''%d'') s
      \<and> \<not> (\<exists>w. indexed_placeholder U w \<and> sublist w s))"

text \<open>
  A run that only writes output documents: every file is as it was, or it was
  truncated by a write that failed and holds no document, or it holds a document with
  the single key \<open>sleep.players_sleeping\<close> and a message without placeholder.
\<close>

definition writes_only_clean :: "unicode_db \<Rightarrow> fs \<Rightarrow> fs \<Rightarrow> bool" where
  "writes_only_clean U files files' =
     (\<forall>p. files' p = files p
          \<or> files' p = Some Malformed
          \<or> (\<exists>m. files' p = Some (Json (output_data m)) \<and> no_placeholder U m))"

section \<open>The concurrent fetcher: \<open>download_file\<close> and \<open>download_all_files\<close>\<close>

text \<open>
  What the network and the disk do for one download is given with the descriptor: the
  request fails (a connection error or the timeout), or a response arrives with a
  status and a body; opening the destination fails, writing it fails after it was
  opened (and truncated), or the write succeeds.
\<close>

datatype response = ConnectionError | Response nat content

record download_env =
  resp :: response
  disk :: disk

type_synonym file_info = "(pystr \<times> json) list"

datatype task_result = Returned bool | Raised error

text \<open>
  The \<open>try\<close> block of \<open>download_file\<close> (lines 15 to 25): \<open>raise_for_status\<close> raises
  from status 400 on, \<open>json.loads\<close> raises on a malformed body, and the destination is
  opened after both.
\<close>

definition download_body :: "json \<Rightarrow> json \<Rightarrow> pystr \<Rightarrow> download_env \<Rightarrow> fs \<Rightarrow> (error + unit) \<times> fs" where
  "download_body file_name file_url dest_dir env files =
     (case file_url of
        JString url \<Rightarrow>
          (case resp env of
             ConnectionError \<Rightarrow> (Inl ClientError, files)
           | Response status body \<Rightarrow>
               if 400 \<le> status then (Inl HTTPStatusError, files)
               else
                 (case body of
                    Malformed \<Rightarrow> (Inl JSONDecodeError, files)
                  | Json data \<Rightarrow>
                      (case file_name of
                         JString name \<Rightarrow>
                           (let file_path = joinpath dest_dir name in
                              case disk env of
                                OpenFails \<Rightarrow> (Inl OSError, files)
                              | WriteFails \<Rightarrow> (Inl OSError, files(file_path \<mapsto> Malformed))
                              | WriteOk \<Rightarrow> (Inr (), files(file_path \<mapsto> Json data)))
                       | _ \<Rightarrow> (Inl TypeError, files))))
      | _ \<Rightarrow> (Inl TypeError, files))"

text \<open>
  The two subscripts before the \<open>try\<close> raise \<open>KeyError\<close> out of the coroutine; every
  exception inside the \<open>try\<close> is caught and turned into \<open>False\<close>.
\<close>

definition download_file :: "file_info \<Rightarrow> pystr \<Rightarrow> download_env \<Rightarrow> fs \<Rightarrow> task_result \<times> fs" where
  "download_file info dest_dir env files =
     (case map_of info (str ''name'') of
        None \<Rightarrow> (Raised KeyError, files)
      | Some file_name \<Rightarrow>
          (case map_of info (str ''download_url'') of
             None \<Rightarrow> (Raised KeyError, files)
           | Some file_url \<Rightarrow>
               (case download_body file_name file_url dest_dir env files of
                  (Inl e, files') \<Rightarrow> (Returned False, files')
                | (Inr u, files') \<Rightarrow> (Returned True, files'))))"

text \<open>
  The downloads run in the order of the list here: one interleaving of the concurrent
  tasks. No result depends on the file system, so the results are those of every
  interleaving; the final file system is the one of this order.
\<close>

fun run_tasks :: "(file_info \<times> download_env) list \<Rightarrow> pystr \<Rightarrow> fs \<Rightarrow> task_result list \<times> fs" where
  "run_tasks [] dest_dir files = ([], files)"
| "run_tasks ((info, env) # rest) dest_dir files =
     (case download_file info dest_dir env files of
        (r, files1) \<Rightarrow>
          (case run_tasks rest dest_dir files1 of
             (rs, files2) \<Rightarrow> (r # rs, files2)))"

text \<open>
  \<open>asyncio.gather\<close>: with \<open>return_exceptions\<close> the exceptions are results, without it
  the first one is raised to the caller.
\<close>

fun first_raised :: "task_result list \<Rightarrow> error option" where
  "first_raised [] = None"
| "first_raised (Raised e # rs) = Some e"
| "first_raised (Returned b # rs) = first_raised rs"

definition gather :: "bool \<Rightarrow> task_result list \<Rightarrow> error + task_result list" where
  "gather return_exceptions results =
     (if return_exceptions then Inr results
      else (case first_raised results of Some e \<Rightarrow> Inl e | None \<Rightarrow> Inr results))"

definition download_all_files ::
  "(file_info \<times> download_env) list \<Rightarrow> pystr \<Rightarrow> fs \<Rightarrow> (error + nat) \<times> fs" where
  "download_all_files json_files dest_dir files =
     (case run_tasks json_files dest_dir files of
        (tasks, files') \<Rightarrow>
          (case gather True tasks of
             Inl e \<Rightarrow> (Inl e, files')
           | Inr results \<Rightarrow>
               (Inr (length (filter (\<lambda>result. result = Returned True) results)), files')))"

text \<open>
  A download that succeeds, in the words of the specification: the request is answered
  with a successful status, the body is JSON, and the file is written. The descriptor
  has to name the file and the address.
\<close>

definition download_succeeds :: "file_info \<times> download_env \<Rightarrow> bool" where
  "download_succeeds item =
     (\<exists>name url status data.
        map_of (fst item) (str ''name'') = Some (JString name)
        \<and> map_of (fst item) (str ''download_url'') = Some (JString url)
        \<and> resp (snd item) = Response status (Json data) \<and> status < 400
        \<and> disk (snd item) = WriteOk)"

section \<open>Properties\<close>

subsection \<open>Scanning and replacing\<close>

lemma startswith_prefix: "startswith s p \<longleftrightarrow> prefix p s"
  unfolding startswith_def
  by (metis append_eq_conv_conj prefix_def)

lemma contains_sublist: "contains sub s \<longleftrightarrow> sublist sub s"
  by (induction s) (auto simp: sublist_Cons_right startswith_prefix)

lemma prefix_append_fresh:
  assumes "prefix w (new @ r)" and "new \<noteq> []" and "set w \<inter> set new = {}"
  shows "w = []"
proof (cases w)
  case Nil then show ?thesis .
next
  case (Cons a w')
  obtain b new' where n: "new = b # new'" using assms(2) by (cases new) auto
  from assms(1) Cons n have "a = b" by simp
  with assms(3) Cons n show ?thesis by auto
qed

lemma sublist_append_fresh:
  assumes "sublist w (new @ r)" and "set w \<inter> set new = {}"
  shows "sublist w r"
  using assms
proof (induction new)
  case Nil then show ?case by simp
next
  case (Cons b new)
  from Cons.prems(1) have "prefix w (b # new @ r) \<or> sublist w (new @ r)"
    by (simp add: sublist_Cons_right)
  then show ?case
  proof
    assume p: "prefix w (b # new @ r)"
    have "w = []" using prefix_append_fresh[of w "b # new" r] p Cons.prems(2) by simp
    then show ?thesis by simp
  next
    assume "sublist w (new @ r)"
    then show ?thesis using Cons.IH Cons.prems(2) by auto
  qed
qed

lemma scan_sub_prefix:
  "new \<noteq> [] \<Longrightarrow> set w \<inter> set new = {} \<Longrightarrow> prefix w (scan_sub m new s) \<Longrightarrow> prefix w s"
proof (induction m new s arbitrary: w rule: scan_sub.induct)
  case (1 m new)
  then show ?case by simp
next
  case (2 m new c cs)
  show ?case
  proof (cases "m (c # cs)")
    case None
    with "2.prems" have p: "prefix w (c # scan_sub m new cs)" by simp
    show ?thesis
    proof (cases w)
      case Nil then show ?thesis by simp
    next
      case (Cons a w')
      with p have a: "a = c" and p': "prefix w' (scan_sub m new cs)" by simp_all
      from "2.prems"(2) Cons have "set w' \<inter> set new = {}" by auto
      from "2.IH"(1)[OF None "2.prems"(1) this p'] have "prefix w' cs" .
      with Cons a show ?thesis by simp
    qed
  next
    case (Some n)
    with "2.prems" have "prefix w (new @ scan_sub m new (drop (n - 1) cs))" by simp
    from prefix_append_fresh[OF this "2.prems"(1) "2.prems"(2)] show ?thesis by simp
  qed
qed

lemma scan_sub_sublist:
  "new \<noteq> [] \<Longrightarrow> set w \<inter> set new = {} \<Longrightarrow> sublist w (scan_sub m new s) \<Longrightarrow> sublist w s"
proof (induction m new s rule: scan_sub.induct)
  case (1 m new)
  then show ?case by simp
next
  case (2 m new c cs)
  show ?case
  proof (cases "m (c # cs)")
    case None
    with "2.prems" have "sublist w (c # scan_sub m new cs)" by simp
    then have "prefix w (c # scan_sub m new cs) \<or> sublist w (scan_sub m new cs)"
      by (simp add: sublist_Cons_right)
    then show ?thesis
    proof
      assume "prefix w (c # scan_sub m new cs)"
      then have "prefix w (scan_sub m new (c # cs))" using None by simp
      from scan_sub_prefix[OF "2.prems"(1) "2.prems"(2) this] show ?thesis by auto
    next
      assume "sublist w (scan_sub m new cs)"
      from "2.IH"(1)[OF None "2.prems"(1) "2.prems"(2) this]
      show ?thesis by (simp add: sublist_Cons_right)
    qed
  next
    case (Some n)
    with "2.prems" have "sublist w (new @ scan_sub m new (drop (n - 1) cs))" by simp
    from sublist_append_fresh[OF this "2.prems"(2)]
    have "sublist w (scan_sub m new (drop (n - 1) cs))" .
    from "2.IH"(2)[OF Some "2.prems"(1) "2.prems"(2) this]
    have "sublist w (drop (n - 1) cs)" .
    moreover have "sublist (drop (n - 1) cs) (c # cs)"
      by (metis sublist_drop sublist_Cons_right)
    ultimately show ?thesis by (rule sublist_order.order.trans)
  qed
qed

text \<open>No word of a pattern language survives when the matcher is complete for it.\<close>

lemma scan_sub_no_match:
  assumes complete: "\<And>w t. W w \<Longrightarrow> prefix w t \<Longrightarrow> m t \<noteq> None"
    and fresh: "\<And>w. W w \<Longrightarrow> w \<noteq> [] \<and> set w \<inter> set new = {}"
    and new: "new \<noteq> []"
    and w: "W w"
  shows "\<not> sublist w (scan_sub m new s)"
proof (induction s rule: length_induct)
  case (1 s)
  show ?case
  proof (cases s)
    case Nil
    then show ?thesis using fresh[OF w] by simp
  next
    case (Cons c cs)
    show ?thesis
    proof (cases "m (c # cs)")
      case None
      have "\<not> prefix w (scan_sub m new s)"
      proof
        assume "prefix w (scan_sub m new s)"
        from scan_sub_prefix[OF new _ this] fresh[OF w] have "prefix w s" by simp
        from complete[OF w this] None Cons show False by simp
      qed
      moreover have "\<not> sublist w (scan_sub m new cs)" using 1 Cons by simp
      ultimately show ?thesis using None Cons by (simp add: sublist_Cons_right)
    next
      case (Some n)
      have "\<not> sublist w (scan_sub m new (drop (n - 1) cs))" using 1 Cons by simp
      then show ?thesis using Some Cons sublist_append_fresh[of w new] fresh[OF w] by auto
    qed
  qed
qed

lemma scan_sub_id:
  assumes sound: "\<And>t n. m t = Some n \<Longrightarrow> \<exists>w. W w \<and> prefix w t"
    and none: "\<And>w. W w \<Longrightarrow> \<not> sublist w s"
  shows "scan_sub m new s = s"
  using none
proof (induction s)
  case Nil
  then show ?case by simp
next
  case (Cons c cs)
  have "m (c # cs) = None"
  proof (cases "m (c # cs)")
    case None then show ?thesis .
  next
    case (Some n)
    from sound[OF this] obtain w where "W w" "prefix w (c # cs)" by blast
    then show ?thesis using Cons.prems by blast
  qed
  moreover have "scan_sub m new cs = cs"
    using Cons.IH Cons.prems by (simp add: sublist_Cons_right)
  ultimately show ?case by simp
qed

lemma match_literal_complete: "old \<noteq> [] \<Longrightarrow> prefix old t \<Longrightarrow> match_literal old t \<noteq> None"
  by (simp add: match_literal_def startswith_prefix)

lemma match_literal_sound: "match_literal old t = Some n \<Longrightarrow> prefix old t"
  by (simp add: match_literal_def startswith_prefix split: if_splits)

lemma replace_no_match:
  assumes "old \<noteq> []" "new \<noteq> []" "set old \<inter> set new = {}"
  shows "\<not> sublist old (replace s old new)"
proof -
  have "\<not> sublist old (scan_sub (match_literal old) new s)"
    by (rule scan_sub_no_match[where W = "\<lambda>w. w = old"])
       (use assms in \<open>auto simp: match_literal_complete\<close>)
  then show ?thesis using assms(1) by (simp add: replace_def)
qed

lemma replace_sublist:
  assumes "old \<noteq> []" "new \<noteq> []" "set w \<inter> set new = {}" "sublist w (replace s old new)"
  shows "sublist w s"
  using assms scan_sub_sublist[of new w "match_literal old" s] by (simp add: replace_def)

lemma replace_id:
  assumes "old \<noteq> []" "\<not> sublist old s"
  shows "replace s old new = s"
proof -
  have "scan_sub (match_literal old) new s = s"
    by (rule scan_sub_id[where W = "\<lambda>w. w = old"])
       (use assms in \<open>auto dest: match_literal_sound\<close>)
  then show ?thesis using assms(1) by (simp add: replace_def)
qed

lemma not_digit_dollar: "\<not> re_digit U 36"
  by (simp add: re_digit_def)

lemma not_digit_question: "\<not> re_digit U 63"
  by (simp add: re_digit_def)

lemma match_indexed_complete:
  assumes "indexed_placeholder U w" "prefix w t"
  shows "match_indexed U t \<noteq> None"
proof -
  from assms(1) obtain ds where ds: "ds \<noteq> []" "list_all (re_digit U) ds" "w = 37 # ds @ [36, 115]"
    by (auto simp: indexed_placeholder_def str_def)
  from assms(2) ds(3) obtain r where t: "t = 37 # ds @ 36 # 115 # r"
    by (auto simp: prefix_def)
  have "\<forall>x\<in>set ds. re_digit U x" using ds(2) by (simp add: list_all_iff)
  then have tw: "takeWhile (re_digit U) (ds @ 36 # 115 # r) = ds"
    and dw: "dropWhile (re_digit U) (ds @ 36 # 115 # r) = 36 # 115 # r"
    by (simp_all add: takeWhile_append2 dropWhile_append2 not_digit_dollar)
  show ?thesis using ds(1) by (simp add: match_indexed_def t tw dw)
qed

lemma match_indexed_sound:
  assumes "match_indexed U t = Some n"
  shows "\<exists>w. indexed_placeholder U w \<and> prefix w t"
proof -
  from assms obtain c t' where t: "t = c # t'"
    by (cases t) (auto simp: match_indexed_def)
  let ?ds = "takeWhile (re_digit U) t'" and ?r = "dropWhile (re_digit U) t'"
  from assms t have c: "c = 37" and ne: "?ds \<noteq> []" and r: "take 2 ?r = [36, 115]"
    by (auto simp: match_indexed_def Let_def split: if_splits)
  from r obtain r' where r': "?r = 36 # 115 # r'"
    by (cases ?r; cases "tl ?r") auto
  have "t' = ?ds @ ?r" by simp
  with r' have "t' = ?ds @ 36 # 115 # r'" by simp
  then have "t = (37 # ?ds @ [36, 115]) @ r'" using t c by simp
  then have "prefix (37 # ?ds @ [36, 115]) t" unfolding prefix_def by blast
  moreover have "list_all (re_digit U) ?ds"
    by (simp add: list_all_iff) (meson set_takeWhileD)
  ultimately show ?thesis using ne unfolding indexed_placeholder_def by (auto simp: str_def)
qed

lemma indexed_placeholder_fresh:
  assumes "indexed_placeholder U w"
  shows "w \<noteq> [] \<and> set w \<inter> set (str ''??'') = {}"
proof -
  from assms obtain ds where ds: "list_all (re_digit U) ds" "w = 37 # ds @ [36, 115]"
    by (auto simp: indexed_placeholder_def str_def)
  have "63 \<notin> set ds" using ds(1) not_digit_question[of U] by (auto simp: list_all_iff)
  then show ?thesis using ds(2) by (simp add: str_def)
qed

lemma re_sub_indexed_no_match:
  assumes "indexed_placeholder U w"
  shows "\<not> sublist w (re_sub_indexed U (str ''??'') s)"
  unfolding re_sub_indexed_def
  by (rule scan_sub_no_match[where W = "indexed_placeholder U"])
     (use assms in \<open>auto simp: match_indexed_complete indexed_placeholder_fresh\<close>, simp add: str_def)

lemma re_sub_indexed_id:
  assumes "\<And>w. indexed_placeholder U w \<Longrightarrow> \<not> sublist w s"
  shows "re_sub_indexed U new s = s"
  unfolding re_sub_indexed_def
  by (rule scan_sub_id[where W = "indexed_placeholder U"])
     (use assms in \<open>auto dest: match_indexed_sound\<close>)

lemma rewrite_passes:
  "rewrite U m =
     replace (replace (re_sub_indexed U (str ''??'')
       (replace m (str ''%s/%s'') (str ''???''))) (str ''%s'') (str ''??'')) (str ''%d'') (str ''??'')"
proof (cases "contains (str ''%s/%s'') m")
  case True
  then show ?thesis by (simp add: rewrite_def)
next
  case False
  then have "replace m (str ''%s/%s'') (str ''???'') = m"
    by (intro replace_id) (simp_all add: contains_sublist str_def)
  with False show ?thesis by (simp add: rewrite_def)
qed

lemma rewrite_no_s: "\<not> sublist (str ''%s'') (rewrite U m)"
proof
  assume a: "sublist (str ''%s'') (rewrite U m)"
  let ?p3 = "replace (re_sub_indexed U (str ''??'')
       (replace m (str ''%s/%s'') (str ''???''))) (str ''%s'') (str ''??'')"
  from a have "sublist (str ''%s'') (replace ?p3 (str ''%d'') (str ''??''))"
    by (simp only: rewrite_passes)
  then have "sublist (str ''%s'') ?p3"
    by (rule replace_sublist[rotated 3]) (simp_all add: str_def)
  moreover have "\<not> sublist (str ''%s'') ?p3"
    by (rule replace_no_match) (simp_all add: str_def)
  ultimately show False by simp
qed

lemma rewrite_no_d: "\<not> sublist (str ''%d'') (rewrite U m)"
  unfolding rewrite_passes by (rule replace_no_match) (simp_all add: str_def)

lemma rewrite_no_indexed:
  assumes "indexed_placeholder U w"
  shows "\<not> sublist w (rewrite U m)"
proof
  assume a: "sublist w (rewrite U m)"
  note fr = indexed_placeholder_fresh[OF assms]
  let ?p2 = "re_sub_indexed U (str ''??'') (replace m (str ''%s/%s'') (str ''???''))"
  let ?p3 = "replace ?p2 (str ''%s'') (str ''??'')"
  from a have "sublist w (replace ?p3 (str ''%d'') (str ''??''))"
    by (simp only: rewrite_passes)
  then have "sublist w ?p3"
    by (rule replace_sublist[rotated 3]) (use fr in \<open>simp_all add: str_def\<close>)
  then have "sublist w ?p2"
    by (rule replace_sublist[rotated 3]) (use fr in \<open>simp_all add: str_def\<close>)
  then show False using re_sub_indexed_no_match[OF assms] by blast
qed

lemma clean_fixed:
  assumes s: "\<not> sublist (str ''%s'') r" and d: "\<not> sublist (str ''%d'') r"
    and i: "\<And>w. indexed_placeholder U w \<Longrightarrow> \<not> sublist w r"
  shows "rewrite U r = r"
proof -
  have "sublist (str ''%s'') (str ''%s/%s'')"
    by (simp add: str_def sublist_Cons_right)
  then have "\<not> sublist (str ''%s/%s'') r"
    using s sublist_order.order.trans by blast
  then have 1: "replace r (str ''%s/%s'') (str ''???'') = r"
    by (intro replace_id) (simp_all add: str_def)
  have 2: "re_sub_indexed U (str ''??'') r = r" using i by (rule re_sub_indexed_id)
  have 3: "replace r (str ''%s'') (str ''??'') = r"
    using s by (intro replace_id) (simp_all add: str_def)
  have 4: "replace r (str ''%d'') (str ''??'') = r"
    using d by (intro replace_id) (simp_all add: str_def)
  show ?thesis by (simp add: rewrite_passes 1 2 3 4)
qed


subsection \<open>What the processing loop writes\<close>

lemma rewrite_clean: "no_placeholder U (rewrite U m)"
  unfolding no_placeholder_def
  using rewrite_no_s rewrite_no_d rewrite_no_indexed by blast

lemma rewrite_value_clean: "rewrite_value U v = Inr m \<Longrightarrow> no_placeholder U m"
  by (cases v) (auto simp: rewrite_value_def rewrite_clean split: sum.splits bool.splits)

lemma writes_only_clean_refl: "writes_only_clean U files files"
  by (simp add: writes_only_clean_def)

lemma writes_only_clean_trans:
  "writes_only_clean U f1 f2 \<Longrightarrow> writes_only_clean U f2 f3 \<Longrightarrow> writes_only_clean U f1 f3"
  unfolding writes_only_clean_def by metis

lemma write_json_clean:
  "no_placeholder U m \<Longrightarrow> writes_only_clean U files (snd (write_json E p (output_data m) files))"
  by (auto simp: write_json_def writes_only_clean_def split: disk.splits)

lemma process_code_clean:
  "writes_only_clean U files (snd (process_code U E out fb c files))"
proof -
  let ?lang_file = "joinpath cache_dir (json_file c)"
  let ?loaded = "if path_exists files ?lang_file then
               (case read_json ?lang_file files of
                  (Inl e, _) \<Rightarrow> Inl e
                | (Inr lang_data, _) \<Rightarrow> dict_get lang_data sleep_key fb)
             else Inr fb"
  show ?thesis
  proof (cases ?loaded)
    case (Inl e)
    then show ?thesis by (simp add: process_code_def Let_def writes_only_clean_refl)
  next
    case l: (Inr sleep_msg)
    show ?thesis
    proof (cases "rewrite_value U sleep_msg")
      case (Inl e)
      with l show ?thesis by (simp add: process_code_def Let_def writes_only_clean_refl)
    next
      case (Inr processed_msg)
      from rewrite_value_clean[OF this] have "no_placeholder U processed_msg" .
      from write_json_clean[OF this] l Inr show ?thesis
        by (simp add: process_code_def Let_def)
    qed
  qed
qed

lemma process_codes_clean:
  "writes_only_clean U files (snd (process_codes U E out fb cs files))"
proof (induction cs arbitrary: files)
  case Nil
  then show ?case by (simp add: writes_only_clean_refl)
next
  case (Cons c cs)
  obtain r files' where pc: "process_code U E out fb c files = (r, files')"
    by (cases "process_code U E out fb c files")
  have step: "writes_only_clean U files files'"
    using process_code_clean[of U files E out fb c] pc by simp
  show ?case
  proof (cases r)
    case (Inl e)
    with pc step show ?thesis by simp
  next
    case (Inr u)
    with pc step Cons.IH[of files'] show ?thesis
      by (auto intro: writes_only_clean_trans)
  qed
qed

lemma read_json_frame: "snd (read_json p files) = files"
  by (simp add: read_json_def split: option.splits content.splits)

lemma check_unmodified_frame:
  "snd (check_unmodified out cs acc files) = files"
proof (induction cs arbitrary: acc)
  case Nil
  then show ?case by simp
next
  case (Cons c cs)
  have r: "\<And>p r f. read_json p files = (r, f) \<Longrightarrow> f = files"
    using read_json_frame by (metis snd_conv)
  show ?case
    by (auto simp: Let_def Cons.IH dest: r split: prod.splits sum.splits)
qed

lemma mkdir_frame: "snd (mkdir E p files) = files"
  by (simp add: mkdir_def)

lemma process_sleep_messages_clean:
  "writes_only_clean U files (snd (process_sleep_messages U E pg out files))"
proof -
  have r: "\<And>p r f. read_json p files = (r, f) \<Longrightarrow> f = files"
    using read_json_frame by (metis snd_conv)
  have mk: "\<And>r f. mkdir E out files = (r, f) \<Longrightarrow> f = files"
    using mkdir_frame by (metis snd_conv)
  have pc: "\<And>fb cs e f. process_codes U E out fb cs files = (e, f) \<Longrightarrow> writes_only_clean U files f"
    using process_codes_clean by (metis snd_conv)
  have cu: "\<And>cs a f. snd (check_unmodified out cs [] f) = f"
    by (simp add: check_unmodified_frame)
  show ?thesis
    by (auto simp: process_sleep_messages_def Let_def writes_only_clean_refl cu
             dest!: mk r dest: pc split: sum.splits prod.splits option.splits)
qed

subsection \<open>The claims about the rewrite\<close>

text \<open>
  C1. The rewrite applies four passes in this order: every \<open>%s/%s\<close> becomes \<open>???\<close>,
  then every indexed placeholder (percent sign, digits, dollar sign, \<open>s\<close>) becomes
  \<open>??\<close>, then every \<open>%s\<close> left becomes \<open>??\<close>, then every \<open>%d\<close> becomes \<open>??\<close>.
  The test before the first pass changes nothing, since replacing in a string without
  occurrence returns the string. The two messages of the specification are rewritten
  as it says.
\<close>

theorem rewrite_four_passes:
  "rewrite U m =
     replace (replace (re_sub_indexed U (str ''??'')
       (replace m (str ''%s/%s'') (str ''???''))) (str ''%s'') (str ''??'')) (str ''%d'') (str ''??'')
   \<and> rewrite U (str ''%s/%s players sleeping'') = str ''??? players sleeping''
   \<and> rewrite U (str ''%1$s/%2$s players are sleeping'') = str ''??/?? players are sleeping''"
proof -
  have "rewrite U (str ''%s/%s players sleeping'') = str ''??? players sleeping''"
    by (simp add: rewrite_def str_def replace_def match_literal_def startswith_def
          re_sub_indexed_def match_indexed_def re_digit_def)
  moreover have "rewrite U (str ''%1$s/%2$s players are sleeping'') = str ''??/?? players are sleeping''"
    by (simp add: rewrite_def str_def replace_def match_literal_def startswith_def
          re_sub_indexed_def match_indexed_def re_digit_def)
  ultimately show ?thesis using rewrite_passes[of U m] by simp
qed

text \<open>
  C2. Whatever the message, its rewrite contains no \<open>%s\<close>, no \<open>%d\<close> and no indexed
  placeholder; hence every output document that a run of \<open>process_sleep_messages\<close>
  writes has a message of that kind: a file that the run changes holds such a
  document, unless the write failed and left the file truncated, without a document.
\<close>

theorem rewrite_leaves_no_placeholder:
  "\<not> sublist (str ''%s'') (rewrite U m)
   \<and> \<not> sublist (str ''%d'') (rewrite U m)
   \<and> \<not> (\<exists>ds. ds \<noteq> [] \<and> list_all (re_digit U) ds
            \<and> sublist (str ''%'' @ ds @ str ''$s'') (rewrite U m))
   \<and> writes_only_clean U files (snd (process_sleep_messages U E pg output_path files))"
proof -
  have "\<not> (\<exists>ds. ds \<noteq> [] \<and> list_all (re_digit U) ds
            \<and> sublist (str ''%'' @ ds @ str ''$s'') (rewrite U m))"
    using rewrite_no_indexed[of U _ m] unfolding indexed_placeholder_def by blast
  then show ?thesis
    using rewrite_no_s[of U m] rewrite_no_d[of U m]
      process_sleep_messages_clean[of U files E pg output_path] by blast
qed

text \<open>
  C3. The rewrite is idempotent: rewriting a rewritten message gives the same message.
\<close>

theorem rewrite_idempotent: "rewrite U (rewrite U m) = rewrite U m"
  by (rule clean_fixed) (simp_all add: rewrite_no_s rewrite_no_d rewrite_no_indexed)

subsection \<open>The language code extractor\<close>

lemma str_split_nonempty: "str_split s sep \<noteq> []"
  by (induction s sep rule: str_split.induct) (auto split: list.splits)

lemma startswith_single: "startswith (c # cs) [x] \<longleftrightarrow> c = x"
  by (simp add: startswith_def)

lemma str_split_one: "str_split s [x] = [b] \<Longrightarrow> s = b"
proof (induction s arbitrary: b)
  case Nil
  then show ?case by simp
next
  case (Cons c cs)
  then show ?case
    by (auto simp: startswith_single str_split_nonempty split: if_splits list.splits)
qed

lemma str_split_two: "str_split s [x] = [a, b] \<Longrightarrow> s = a @ [x] @ b"
proof (induction s arbitrary: a)
  case Nil
  then show ?case by simp
next
  case (Cons c cs)
  then show ?case
    by (auto simp: startswith_single dest: str_split_one split: if_splits list.splits)
qed

lemma row_code_shape:
  assumes "row_code U cells = Some c"
  shows "valid_identifier U c \<or> (contains JEonly (cells ! 4) \<and> c \<noteq> [] \<and> str_count c (str ''_'') = 1)"
proof (cases "contains JEonly (cells ! 4)")
  case True
  with assms show ?thesis
    by (auto simp: row_code_def Let_def split: if_splits)
next
  case False
  let ?l = "cells ! 4"
  from assms False have c: "c = ?l" 
    and d: "(isalpha U ?l \<and> 2 \<le> length ?l) \<or>
       (length (str_split ?l (str ''_'')) = 2 \<and> list_all (\<lambda>part. isalpha U part \<and> length part \<ge> 2) (str_split ?l (str ''_'')))"
    by (auto simp: row_code_def Let_def split: if_splits)
  from d show ?thesis
  proof
    assume "isalpha U ?l \<and> 2 \<le> length ?l"
    then show ?thesis by (simp add: valid_identifier_def c)
  next
    assume s: "length (str_split ?l (str ''_'')) = 2 \<and> list_all (\<lambda>part. isalpha U part \<and> length part \<ge> 2) (str_split ?l (str ''_''))"
    then obtain a b where ab: "str_split ?l (str ''_'') = [a, b]"
      by (cases "str_split ?l (str ''_'')"; cases "tl (str_split ?l (str ''_''))") auto
    then have "?l = a @ str ''_'' @ b" using str_split_two[of ?l 95 a b] by (simp add: str_def)
    moreover from s ab have "isalpha U a \<and> 2 \<le> length a \<and> isalpha U b \<and> 2 \<le> length b" by simp
    ultimately show ?thesis unfolding valid_identifier_def c by blast
  qed
qed

lemma foldl_append_codes:
  "foldl (\<lambda>language_codes row.
            case f row of Some code \<Rightarrow> language_codes @ [code] | None \<Rightarrow> language_codes) acc rows
     = acc @ List.map_filter f rows"
  by (induction rows arbitrary: acc) (auto simp: List.map_filter_simps split: option.splits)

lemmas eval_defs = str_def isdigit_def isalpha_def char_isdigit_def char_isalpha_def
  startswith_def JEonly_def en_dash_def str_count_def row_code_def get_language_codes_def Let_def

lemma not_valid_en_1: "\<not> valid_identifier U (str ''en_1'')"
proof
  assume "valid_identifier U (str ''en_1'')"
  then consider "isalpha U (str ''en_1'')"
    | a b where "str ''en_1'' = a @ str ''_'' @ b" "isalpha U b" "2 \<le> length b" "isalpha U a"
    unfolding valid_identifier_def by blast
  then show False
  proof cases
    case 1
    then show False by (simp add: isalpha_def str_def char_isalpha_def)
  next
    case 2
    from 2(1) have "a = str ''en'' \<and> b = str ''1''"
      using 2(4)
      by (auto simp: str_def append_eq_Cons_conv Cons_eq_append_conv isalpha_def char_isalpha_def)
    with 2(3) show False by (simp add: str_def)
  qed
qed

text \<open>
  C4. The claim: every identifier the extractor accepts is alphabetic with two
  characters or more, or two such parts joined by one underscore. The branches for
  unmarked codes check this (\<open>row_code_shape\<close>); the branch for codes with the
  Java-Edition marker only counts the underscores. A row whose code cell reads
  \<open>en_1\<close> followed by the marker is accepted with the code \<open>en_1\<close>, whose second
  part is a digit.
\<close>

theorem marked_code_accepted_unchecked:
  "get_language_codes U
     (Page (Some [[str ''1'', str ''x'', str ''x'', str ''x'', str ''en_1'' @ JEonly, str ''x'']]))
     = Inr [str ''en_1'']
   \<and> \<not> valid_identifier U (str ''en_1'')"
proof -
  have "get_language_codes U
     (Page (Some [[str ''1'', str ''x'', str ''x'', str ''x'', str ''en_1'' @ JEonly, str ''x'']]))
     = Inr [str ''en_1'']"
    by (simp add: eval_defs)
  then show ?thesis using not_valid_en_1[of U] by simp
qed

text \<open>
  C5, as amended. The result is a list: one entry for every row that yields a code, in
  the order of the rows. Nothing removes an identifier that a later row yields again.
\<close>

theorem extractor_one_entry_per_row:
  "get_language_codes U (Page (Some rows)) = Inr (List.map_filter (row_code U) rows)"
  by (simp add: get_language_codes_def foldl_append_codes)

text \<open>
  C5 as stated fails: two rows with the code \<open>en_gb\<close> give a result in which
  \<open>en_gb\<close> occurs twice.
\<close>

theorem extractor_keeps_duplicates:
  "get_language_codes ascii_only
     (Page (Some [[str ''1'', str ''English'', str ''English'', str ''UK'', str ''en_gb'', str ''eng''],
                  [str ''2'', str ''English'', str ''English'', str ''UK'', str ''en_gb'', str ''eng'']]))
     = Inr [str ''en_gb'', str ''en_gb'']
   \<and> \<not> distinct [str ''en_gb'', str ''en_gb'']"
  by (simp add: eval_defs)

subsection \<open>The verification pass and the fallback file\<close>

lemma contains_single: "contains [c] s \<longleftrightarrow> c \<in> set s"
  by (induction s) (auto simp: startswith_def)

lemma has_placeholder_string:
  "has_placeholder (JString m) = Inr (37 \<in> set m \<and> (115 \<in> set m \<or> 100 \<in> set m))"
  by (simp add: has_placeholder_def py_in_def str_def contains_single split: bool.splits)

lemma percent_then_flagged:
  "percent_then_s_or_d m \<Longrightarrow> 37 \<in> set m \<and> (115 \<in> set m \<or> 100 \<in> set m)"
  by (induction m) auto

text \<open>
  C6, as amended. The verification pass flags an output file if and only if its
  message contains a percent sign (code point 37) and contains an \<open>s\<close> (115) or a
  \<open>d\<close> (100), wherever they stand: the file is appended to the reported list in that
  case, the list is unchanged otherwise, and the file system stays as it is.
\<close>

theorem verification_flag_test:
  assumes "files (joinpath output_dir (json_file lang_code)) = Some (Json (output_data m))"
  shows "check_unmodified output_dir (lang_code # rest) unmodified_files files =
           check_unmodified output_dir rest
             (if 37 \<in> set m \<and> (115 \<in> set m \<or> 100 \<in> set m)
              then unmodified_files @ [(lang_code, JString m)]
              else unmodified_files) files"
  using assms
  by (simp add: Let_def path_exists_def read_json_def dict_get_def output_data_def
        has_placeholder_string)

theorem verification_flag_test_witness:
  "fst (check_unmodified (str ''out'') [str ''de_de''] []
          [joinpath (str ''out'') (json_file (str ''de_de'')) \<mapsto> Json (output_data (str ''%x d''))])
     = Inr [(str ''de_de'', JString (str ''%x d''))]"
  using verification_flag_test[where
      files = "[joinpath (str ''out'') (json_file (str ''de_de'')) \<mapsto> Json (output_data (str ''%x d''))]"
      and output_dir = "str ''out''" and lang_code = "str ''de_de''" and m = "str ''%x d''"
      and rest = "[]" and unmodified_files = "[]"]
  by (simp add: str_def)

text \<open>
  C6 as stated fails: in the message \<open>s%\<close> nothing follows the percent sign, and the
  file is flagged.
\<close>

theorem flagged_without_later_s_or_d:
  "fst (check_unmodified (str ''out'') [str ''xx''] []
          [joinpath (str ''out'') (json_file (str ''xx'')) \<mapsto> Json (output_data (str ''s%''))])
     = Inr [(str ''xx'', JString (str ''s%''))]
   \<and> \<not> percent_then_s_or_d (str ''s%'')"
  by (simp add: Let_def path_exists_def read_json_def dict_get_def output_data_def
        has_placeholder_string str_def)




text \<open>
  C9. The verification pass changes no file: the file system after the pass is the
  file system before it, whatever the pass reports.
\<close>

theorem verification_never_mutates:
  "snd (check_unmodified output_dir language_codes unmodified_files files) = files"
  by (rule check_unmodified_frame)

subsection \<open>Failure paths of the message processor\<close>

text \<open>
  A regular file at the output path stops the step at \<open>mkdir\<close>, before the fallback
  file is looked for; a message with a surrogate code point makes the dump fail after
  the output file was truncated.
\<close>

lemma regular_file_at_output_path:
  "process_sleep_messages ascii_only disk_ok
     (Page (Some [[str ''1'', str ''English'', str ''English'', str ''UK'', str ''en_gb'', str ''eng'']]))
     (str ''out'') [str ''out'' \<mapsto> Malformed]
   = (Inl FileExistsError, [str ''out'' \<mapsto> Malformed])"
  by (simp add: process_sleep_messages_def eval_defs mkdir_def path_exists_def)

lemma surrogate_truncates_output_file:
  "process_code ascii_only disk_ok (str ''out'') (JString [55296]) (str ''xx'') Map.empty
   = (Inl UnicodeEncodeError, [joinpath (str ''out'') (json_file (str ''xx'')) \<mapsto> Malformed])"
  by (simp add: process_code_def Let_def path_exists_def rewrite_value_def rewrite_def
        replace_def re_sub_indexed_def match_indexed_def match_literal_def startswith_def str_def
        write_json_def disk_ok_def output_data_def sleep_key_def str_encodable_def
        joinpath_def json_file_def cache_dir_def)

subsection \<open>The concurrent fetcher\<close>

lemma download_file_result:
  "fst (download_file info dest env files) = Returned True \<longleftrightarrow> download_succeeds (info, env)"
  by (auto simp: download_file_def download_body_def download_succeeds_def Let_def
      split: option.splits json.splits response.splits content.splits disk.splits if_splits)

lemma run_tasks_count:
  "length (filter (\<lambda>r. r = Returned True) (fst (run_tasks ts dest files)))
     = length (filter download_succeeds ts)"
proof (induction ts arbitrary: files)
  case Nil
  then show ?case by simp
next
  case (Cons t ts)
  obtain info env where t: "t = (info, env)" by (cases t)
  obtain r f1 where d: "download_file info dest env files = (r, f1)"
    by (cases "download_file info dest env files")
  obtain rs f2 where rt: "run_tasks ts dest f1 = (rs, f2)"
    by (cases "run_tasks ts dest f1")
  have "r = Returned True \<longleftrightarrow> download_succeeds (info, env)"
    using download_file_result[of info dest env files] d by simp
  moreover have "length (filter (\<lambda>r. r = Returned True) rs) = length (filter download_succeeds ts)"
    using Cons.IH[of f1] rt by simp
  ultimately show ?case by (simp add: t d rt)
qed

text \<open>
  C7. The batch never ends with an exception: it returns the number of descriptors
  whose download succeeded, every other descriptor (failed request, error status,
  malformed body, failed write, descriptor without name or address) counting for
  nothing; for the empty list it returns 0 and leaves the files alone.
\<close>

theorem fetcher_counts_successes:
  "fst (download_all_files json_files dest_dir files)
     = Inr (length (filter download_succeeds json_files))
   \<and> length (filter download_succeeds json_files) \<le> length json_files
   \<and> download_all_files [] dest_dir files = (Inr 0, files)"
proof -
  obtain rs f where rt: "run_tasks json_files dest_dir files = (rs, f)"
    by (cases "run_tasks json_files dest_dir files")
  have "length (filter (\<lambda>r. r = Returned True) rs) = length (filter download_succeeds json_files)"
    using run_tasks_count[of json_files dest_dir files] rt by simp
  then show ?thesis by (simp add: download_all_files_def gather_def rt)
qed

text \<open>
  C10. A download whose request fails, whose status is 400 or more, or whose body is
  no JSON leaves every file as it was, the destination included, and does not count
  as a success.
\<close>

theorem failed_download_writes_nothing:
  assumes "resp env = ConnectionError
         \<or> (\<exists>status body. resp env = Response status body \<and> (400 \<le> status \<or> body = Malformed))"
  shows "snd (download_file info dest_dir env files) = files
       \<and> fst (download_file info dest_dir env files) \<noteq> Returned True"
  using assms
  by (auto simp: download_file_def download_body_def
      split: option.splits json.splits response.splits content.splits)

theorem failed_download_writes_nothing_witness:
  "resp \<lparr>resp = Response 404 Malformed, disk = WriteOk\<rparr> = Response 404 Malformed
   \<and> download_file [(str ''name'', JString (str ''en_gb.json'')),
                     (str ''download_url'', JString (str ''https://example.org/en_gb.json''))]
        cache_dir \<lparr>resp = Response 404 Malformed, disk = WriteOk\<rparr> Map.empty
     = (Returned False, Map.empty)"
  using failed_download_writes_nothing[where
      env = "\<lparr>resp = Response 404 Malformed, disk = WriteOk\<rparr>"
      and info = "[(str ''name'', JString (str ''en_gb.json'')),
        (str ''download_url'', JString (str ''https://example.org/en_gb.json''))]"
      and dest_dir = cache_dir and files = Map.empty]
  by (simp add: download_file_def download_body_def str_def)

end
